theory Spec2Isabelle
  imports Complex_Main "HOL-Library.AList"
begin

section \<open>Text\<close>

text \<open>
  A Python \<open>str\<close> is a sequence of code points. It is modelled as a \<open>string\<close> whose
  characters are the code points U+0000 to U+00FF (not UTF-8 bytes), so that one
  character of the model is one character of the source; the accented letters of
  Spanish lie in this range. The classes below are those of Python's \<open>re\<close> module for
  \<open>str\<close> patterns on that range.
\<close>

definition code :: "char \<Rightarrow> nat" where
  "code c = of_char c"

definition ascii_upper :: "char \<Rightarrow> bool" where
  \<comment> \<open>the class \<open>[A-Z]\<close>\<close>
  "ascii_upper c = (65 \<le> code c \<and> code c \<le> 90)"

definition ascii_lower :: "char \<Rightarrow> bool" where
  \<comment> \<open>the class \<open>[a-z]\<close>\<close>
  "ascii_lower c = (97 \<le> code c \<and> code c \<le> 122)"

definition ascii_digit :: "char \<Rightarrow> bool" where
  \<comment> \<open>the class \<open>[0-9]\<close>\<close>
  "ascii_digit c = (48 \<le> code c \<and> code c \<le> 57)"

definition latin_letter :: "char \<Rightarrow> bool" where
  \<comment> \<open>the letters of U+0080..U+00FF: feminine and masculine ordinal, micro sign,
      and the accented letters (the multiplication and division signs are not letters)\<close>
  "latin_letter c =
     (code c = 170 \<or> code c = 181 \<or> code c = 186 \<or>
      (192 \<le> code c \<and> code c \<le> 214) \<or>
      (216 \<le> code c \<and> code c \<le> 246) \<or>
      248 \<le> code c)"

definition latin_numeric :: "char \<Rightarrow> bool" where
  \<comment> \<open>superscript two, three, one and the vulgar fractions: \<open>str.isalnum\<close> holds of them\<close>
  "latin_numeric c =
     (code c = 178 \<or> code c = 179 \<or> code c = 185 \<or>
      (188 \<le> code c \<and> code c \<le> 190))"

definition is_letter :: "char \<Rightarrow> bool" where
  "is_letter c = (ascii_upper c \<or> ascii_lower c \<or> latin_letter c)"

definition is_word :: "char \<Rightarrow> bool" where
  \<comment> \<open>the class \<open>\w\<close> of a \<open>str\<close> pattern: alphanumeric or underscore\<close>
  "is_word c =
     (is_letter c \<or> ascii_digit c \<or> latin_numeric c \<or> c = CHR ''_'')"

definition is_space :: "char \<Rightarrow> bool" where
  \<comment> \<open>the class \<open>\s\<close>, which is also what \<open>str.split()\<close> splits at\<close>
  "is_space c =
     ((9 \<le> code c \<and> code c \<le> 13) \<or> (28 \<le> code c \<and> code c \<le> 32) \<or>
      code c = 133 \<or> code c = 160)"

fun startswith :: "string \<Rightarrow> string \<Rightarrow> bool" where
  \<comment> \<open>\<open>s.startswith(p)\<close>, as \<open>startswith p s\<close>\<close>
  "startswith [] s = True"
| "startswith (p # ps) [] = False"
| "startswith (p # ps) (c # cs) = (p = c \<and> startswith ps cs)"

fun contains :: "string \<Rightarrow> string \<Rightarrow> bool" where
  \<comment> \<open>\<open>p in s\<close>, as \<open>contains p s\<close>\<close>
  "contains p [] = (p = [])"
| "contains p (c # cs) = (startswith p (c # cs) \<or> contains p cs)"


section \<open>Ticker extraction (coordinator\_agent.py)\<close>

text \<open>
  \<open>TICKER_PATTERN = r"\b[A-Z]{1,5}\b"\<close> and \<open>re.findall(TICKER_PATTERN, query)\<close>.
  The scan keeps the character before the current position (\<open>None\<close> at the start of
  the text) and the text from the current position on.
\<close>

fun head_opt :: "string \<Rightarrow> char option" where
  "head_opt [] = None"
| "head_opt (c # cs) = Some c"

fun opt_word :: "char option \<Rightarrow> bool" where
  "opt_word None = False"
| "opt_word (Some c) = is_word c"

definition boundary :: "char option \<Rightarrow> string \<Rightarrow> bool" where
  \<comment> \<open>\<open>\b\<close>: exactly one of the two neighbours of the position is a word character\<close>
  "boundary prev s = (opt_word prev \<noteq> opt_word (head_opt s))"

fun backtrack :: "string \<Rightarrow> nat \<Rightarrow> nat option" where
  \<comment> \<open>the greedy \<open>[A-Z]{1,5}\<close> has taken \<open>k\<close> letters of \<open>s\<close>; the closing \<open>\b\<close> is tried
      after \<open>k\<close> letters, then after \<open>k - 1\<close>, down to one\<close>
  "backtrack s 0 = None"
| "backtrack s (Suc k) =
     (if boundary (Some (s ! k)) (drop (Suc k) s) then Some (Suc k)
      else backtrack s k)"

definition match_here :: "char option \<Rightarrow> string \<Rightarrow> nat option" where
  \<comment> \<open>the length of the match of the pattern at the current position, if there is one\<close>
  "match_here prev s =
     (if boundary prev s
      then backtrack s (length (takeWhile ascii_upper (take 5 s)))
      else None)"

lemma backtrack_bounds: "backtrack s k = Some n \<Longrightarrow> 0 < n \<and> n \<le> k"
  by (induction k) (auto split: if_splits)

lemma match_here_bounds:
  assumes "match_here prev s = Some n"
  shows "0 < n \<and> n \<le> length s"
proof -
  from assms have "backtrack s (length (takeWhile ascii_upper (take 5 s))) = Some n"
    by (simp add: match_here_def split: if_splits)
  then have "0 < n \<and> n \<le> length (takeWhile ascii_upper (take 5 s))"
    by (rule backtrack_bounds)
  moreover have "length (takeWhile ascii_upper (take 5 s)) \<le> length (take 5 s)"
    by (rule length_takeWhile_le)
  ultimately show ?thesis by simp
qed

function findall :: "char option \<Rightarrow> string \<Rightarrow> string list" where
  \<comment> \<open>\<open>re.findall\<close>: the matches from left to right, the search resuming where a match ends\<close>
  "findall prev s =
     (case match_here prev s of
        Some n \<Rightarrow> take n s # findall (Some (s ! (n - 1))) (drop n s)
      | None \<Rightarrow> (case s of [] \<Rightarrow> [] | c # cs \<Rightarrow> findall (Some c) cs))"
  by pat_completeness auto
termination
proof (relation "measure (\<lambda>(prev, s). length s)")
  show "wf (measure (\<lambda>(prev, s). length s))" by simp
next
  fix prev :: "char option" and s :: string and n :: nat
  assume "match_here prev s = Some n"
  then have "0 < n \<and> n \<le> length s" by (rule match_here_bounds)
  then show "((Some (s ! (n - 1)), drop n s), (prev, s)) \<in> measure (\<lambda>(prev, s). length s)"
    by auto
next
  fix prev :: "char option" and s :: string and c :: char and cs :: string
  assume "s = c # cs"
  then show "((Some c, cs), (prev, s)) \<in> measure (\<lambda>(prev, s). length s)"
    by simp
qed

declare findall.simps [simp del]

fun dedup_loop :: "'a set \<Rightarrow> 'a list \<Rightarrow> 'a list \<Rightarrow> 'a list" where
  \<comment> \<open>the loop over \<open>tickers\<close> with its two variables \<open>seen\<close> and \<open>unique\<close>\<close>
  "dedup_loop seen unique [] = unique"
| "dedup_loop seen unique (t # ts) =
     (if t \<in> seen then dedup_loop seen unique ts
      else dedup_loop (insert t seen) (unique @ [t]) ts)"

definition extract_tickers_from_query :: "string \<Rightarrow> string list" where
  "extract_tickers_from_query query = dedup_loop {} [] (findall None query)"


section \<open>Errors\<close>

text \<open>
  The exceptions that the statements of \<open>get_market_data\<close> and of
  \<open>summarize_market_data\<close> can raise. A raise is the value \<open>Inl e\<close>; it ends the
  function and every caller up to \<open>run\<close>, none of which has a handler.
\<close>

datatype error = IndexError | KeyError | TypeError | ZeroDivisionError | OverflowError

definition and_then :: "error + 'a \<Rightarrow> ('a \<Rightarrow> error + 'b) \<Rightarrow> error + 'b" where
  \<comment> \<open>the next statement runs unless the one before it raised\<close>
  "and_then m f = (case m of Inl e \<Rightarrow> Inl e | Inr a \<Rightarrow> f a)"


section \<open>Market data (data\_utils.py, market\_data\_agent.py)\<close>

text \<open>
  A pandas data frame is its column names and its rows; a cell of a price frame is a
  timestamp (seconds since the epoch) or a number. Python floats are taken as
  rationals: the claims settled here are about which branch is taken, not about
  rounding error. The frame that \<open>yf.download\<close> returns keeps its dates in the index.
  A \<open>datetime.date\<close> is its proleptic Gregorian ordinal, from 1 (\<open>date.min\<close>) to
  3652059 (\<open>date.max\<close>); a \<open>timedelta\<close> of whole days is its number of days.
\<close>

definition timedelta :: "int \<Rightarrow> error + int" where
  \<comment> \<open>\<open>dt.timedelta(days=days)\<close>\<close>
  "timedelta d =
     (if - 999999999 \<le> d \<and> d \<le> 999999999 then Inr d else Inl OverflowError)"

definition date_sub :: "int \<Rightarrow> int \<Rightarrow> error + int" where
  \<comment> \<open>\<open>end - delta\<close> on a date\<close>
  "date_sub d delta =
     (if 1 \<le> d - delta \<and> d - delta \<le> 3652059 then Inr (d - delta)
      else Inl OverflowError)"

datatype cell = Stamp int | Num rat

record frame =
  columns :: "string list"
  rows :: "cell list list"

record indexed_frame = frame +
  index_name :: string
  index :: "cell list"

definition df_empty :: "'a frame_scheme \<Rightarrow> bool" where
  \<comment> \<open>\<open>df.empty\<close>: one of the axes has length zero\<close>
  "df_empty df = (rows df = [] \<or> columns df = [])"

definition reset_index :: "indexed_frame \<Rightarrow> frame" where
  \<comment> \<open>\<open>df.reset_index(inplace=True)\<close>: the index becomes the first column\<close>
  "reset_index df =
     \<lparr>columns = index_name df # columns df,
      rows = map (\<lambda>(i, r). i # r) (zip (index df) (rows df))\<rparr>"

fun get_market_data_loop ::
  "(string \<Rightarrow> int \<Rightarrow> int \<Rightarrow> string \<Rightarrow> indexed_frame) \<Rightarrow> int \<Rightarrow> int \<Rightarrow> string \<Rightarrow>
   (string \<times> frame) list \<Rightarrow> string list \<Rightarrow> (string \<times> frame) list" where
  "get_market_data_loop download start_date end_date interval data_dict [] = data_dict"
| "get_market_data_loop download start_date end_date interval data_dict (t # ts) =
     (let df = download t start_date end_date interval
      in if df_empty df then get_market_data_loop download start_date end_date interval data_dict ts
         else get_market_data_loop download start_date end_date interval
                (AList.update t (reset_index df) data_dict) ts)"

definition get_market_data ::
  "int \<Rightarrow> (string \<Rightarrow> int \<Rightarrow> int \<Rightarrow> string \<Rightarrow> indexed_frame) \<Rightarrow> string list \<Rightarrow> int \<Rightarrow> string \<Rightarrow>
   error + (string \<times> frame) list" where
  \<comment> \<open>\<open>today_date\<close> is the value of \<open>dt.date.today()\<close> and \<open>download t start_date end_date interval\<close>
      stands for \<open>yf.download\<close>; the two dates are computed before the loop, also for
      an empty ticker list; a dict is an association list in insertion order\<close>
  "get_market_data today_date download tickers days interval =
     (let end_date = today_date
      in and_then (timedelta days) (\<lambda>delta.
         and_then (date_sub end_date delta) (\<lambda>start_date.
           Inr (get_market_data_loop download start_date end_date interval [] tickers))))"

datatype field = Txt string | Date int | Val cell

record table =
  tcolumns :: "string list"
  trows :: "(string \<times> field) list list"

definition cell_key :: "cell \<Rightarrow> rat" where
  "cell_key c = (case c of Stamp t \<Rightarrow> of_int t | Num r \<Rightarrow> r)"

definition first_key :: "cell list \<Rightarrow> rat" where
  \<comment> \<open>the sort key of a row: its cell in the first column\<close>
  "first_key r = (case r of [] \<Rightarrow> 0 | c # _ \<Rightarrow> cell_key c)"

definition getitem :: "string list \<Rightarrow> cell list \<Rightarrow> string \<Rightarrow> error + cell" where
  \<comment> \<open>\<open>row[name]\<close>\<close>
  "getitem cols r name =
     (case map_of (zip cols r) name of None \<Rightarrow> Inl KeyError | Some c \<Rightarrow> Inr c)"

definition to_float :: "cell \<Rightarrow> error + rat" where
  \<comment> \<open>\<open>float(x)\<close>\<close>
  "to_float c = (case c of Num r \<Rightarrow> Inr r | Stamp t \<Rightarrow> Inl TypeError)"

definition date_or_self :: "cell \<Rightarrow> field" where
  \<comment> \<open>\<open>x.date() if hasattr(x, "date") else x\<close>\<close>
  "date_or_self c = (case c of Stamp t \<Rightarrow> Date (t div 86400) | Num r \<Rightarrow> Val (Num r))"

definition round_half_even :: "rat \<Rightarrow> int" where
  "round_half_even y =
     (let f = \<lfloor>y\<rfloor>; d = y - of_int f
      in if d < 1 / 2 then f else if 1 / 2 < d then f + 1
         else if even f then f else f + 1)"

definition round2 :: "rat \<Rightarrow> rat" where
  \<comment> \<open>\<open>round(x, 2)\<close>\<close>
  "round2 x = of_int (round_half_even (x * 100)) / 100"

definition py_div :: "rat \<Rightarrow> rat \<Rightarrow> error + rat" where
  \<comment> \<open>\<open>a / b\<close> on Python floats\<close>
  "py_div a b = (if b = 0 then Inl ZeroDivisionError else Inr (a / b))"

definition price_col :: "frame \<Rightarrow> string" where
  "price_col df = (if ''Adj Close'' \<in> set (columns df) then ''Adj Close'' else ''Close'')"

definition summarize_row :: "string \<Rightarrow> frame \<Rightarrow> error + (string \<times> field) list" where
  \<comment> \<open>the body of the loop of \<open>summarize_market_data\<close>; \<open>sort_values\<close> is taken as a
      stable sort\<close>
  "summarize_row t df =
     (case columns df of
        [] \<Rightarrow> Inl IndexError
      | col0 # _ \<Rightarrow>
         (case sort_key first_key (rows df) of
            [] \<Rightarrow> Inl IndexError
          | first_row # others \<Rightarrow>
             (let last_row = last (first_row # others)
              in and_then (getitem (columns df) first_row (price_col df)) (\<lambda>a.
                 and_then (to_float a) (\<lambda>price_start.
                 and_then (getitem (columns df) last_row (price_col df)) (\<lambda>b.
                 and_then (to_float b) (\<lambda>price_end.
                 and_then (py_div (price_end - price_start) price_start) (\<lambda>q.
                 and_then (getitem (columns df) first_row col0) (\<lambda>d0.
                 and_then (getitem (columns df) last_row col0) (\<lambda>d1.
                   Inr [(''ticker'', Txt t),
                        (''fecha_inicio'', date_or_self d0),
                        (''fecha_fin'', date_or_self d1),
                        (''precio_inicio'', Val (Num (round2 price_start))),
                        (''precio_fin'', Val (Num (round2 price_end))),
                        (''variacion_pct'', Val (Num (round2 (q * 100))))]))))))))))"

fun summarize_loop ::
  "(string \<times> field) list list \<Rightarrow> (string \<times> frame) list \<Rightarrow>
   error + (string \<times> field) list list" where
  "summarize_loop rows_acc [] = Inr rows_acc"
| "summarize_loop rows_acc ((t, df) # items) =
     (case summarize_row t df of
        Inl e \<Rightarrow> Inl e
      | Inr r \<Rightarrow> summarize_loop (rows_acc @ [r]) items)"

definition DataFrame :: "(string \<times> field) list list \<Rightarrow> table" where
  \<comment> \<open>\<open>pd.DataFrame(rows)\<close> of a list of dicts: the columns are the keys, in the order
      in which they first appear\<close>
  "DataFrame rs = \<lparr>tcolumns = dedup_loop {} [] (concat (map (map fst) rs)), trows = rs\<rparr>"

definition summarize_market_data :: "(string \<times> frame) list \<Rightarrow> error + table" where
  "summarize_market_data data_dict =
     (case summarize_loop [] data_dict of
        Inl e \<Rightarrow> Inl e
      | Inr rs \<Rightarrow> Inr (DataFrame rs))"

definition summarize :: "(string \<times> frame) list \<Rightarrow> error + table" where
  \<comment> \<open>\<open>MarketDataAgent.summarize\<close>\<close>
  "summarize data_dict =
     (if data_dict = []
      then Inr \<lparr>tcolumns = [''ticker'', ''fecha_inicio'', ''fecha_fin'',
                              ''precio_inicio'', ''precio_fin'', ''variacion_pct''],
                 trows = []\<rparr>
      else summarize_market_data data_dict)"


section \<open>News (data\_utils.py, web\_news\_agent.py)\<close>

text \<open>
  An article is the dict \<open>{"titulo": ..., "url": ...}\<close>; an absent URL is \<open>None\<close>.
  A title that is \<open>None\<close> or missing counts as the empty title, which is how
  \<open>a.get("titulo")\<close> treats it.
\<close>

record article =
  titulo :: string
  url :: "string option"

record news_info =
  raw :: "article list"
  clean :: "string list option"

definition py_prefix :: "int \<Rightarrow> 'a list \<Rightarrow> 'a list" where
  \<comment> \<open>the slice \<open>xs[:n]\<close>: a negative \<open>n\<close> counts from the end\<close>
  "py_prefix n xs =
     (if 0 \<le> n then take (nat n) xs else take (nat (int (length xs) + n)) xs)"

definition fake_news_for_ticker :: "string \<Rightarrow> int \<Rightarrow> article list" where
  "fake_news_for_ticker ticker n =
     (let base =
        [ticker @ '': La compa'' @ [CHR 0xF1, CHR 0xED] @
           ''a reporta resultados trimestrales mejor de lo esperado.'',
         ticker @ '': Analistas revisan sus perspectivas para la acci'' @ [CHR 0xF3] @ ''n.'',
         ticker @ '': Noticias mixtas en el sector impactan el desempe'' @ [CHR 0xF1] @
           ''o reciente.'']
      in map (\<lambda>t. \<lparr>titulo = t, url = None\<rparr>) (py_prefix n base))"

text \<open>
  What \<open>requests.get\<close> and the parser give for one page: an exception anywhere in the
  \<open>try\<close> block, or a status code with the \<open>a\<close> elements that have an \<open>href\<close>, each as
  its \<open>href\<close> and its stripped text.
\<close>

datatype http_result = Raised | Response int "(string \<times> string) list"

fun collect_articles :: "int \<Rightarrow> article list \<Rightarrow> (string \<times> string) list \<Rightarrow> article list" where
  \<comment> \<open>the loop over \<open>links\<close>, with its \<open>break\<close>\<close>
  "collect_articles max_articles articles [] = articles"
| "collect_articles max_articles articles ((href, text) # links) =
     (if contains ''/news/'' href \<and> text \<noteq> []
      then
        (let full_url = (if startswith ''http'' href then href
                         else ''https://es-us.finanzas.yahoo.com'' @ href);
             articles' = articles @ [\<lparr>titulo = text, url = Some full_url\<rparr>]
         in if max_articles \<le> int (length articles') then articles'
            else collect_articles max_articles articles' links)
      else collect_articles max_articles articles links)"

definition base_url :: "string \<Rightarrow> string" where
  "base_url ticker = ''https://es-us.finanzas.yahoo.com/quote/'' @ ticker @ ''/news/''"

definition articles_for :: "(string \<Rightarrow> http_result) \<Rightarrow> string \<Rightarrow> int \<Rightarrow> article list" where
  \<comment> \<open>the \<open>try\<close> statement of \<open>get_news_for_tickers\<close> for one ticker\<close>
  "articles_for requests_get t max_articles =
     (case requests_get (base_url t) of
        Raised \<Rightarrow> fake_news_for_ticker t max_articles
      | Response status_code links \<Rightarrow>
          (let articles = (if status_code = 200 then collect_articles max_articles [] links
                           else [])
           in if articles = [] \<or> status_code \<noteq> 200
              then fake_news_for_ticker t max_articles
              else articles))"

fun get_news_loop ::
  "(string \<Rightarrow> http_result) \<Rightarrow> int \<Rightarrow> bool \<Rightarrow> (string \<Rightarrow> string) option \<Rightarrow>
   (string \<times> news_info) list \<Rightarrow> string list \<Rightarrow> (string \<times> news_info) list" where
  "get_news_loop requests_get max_articles limpiar limpiar_fn result [] = result"
| "get_news_loop requests_get max_articles limpiar limpiar_fn result (t # ts) =
     (let articles = articles_for requests_get t max_articles;
          clean_titles =
            (case limpiar_fn of
               None \<Rightarrow> None
             | Some f \<Rightarrow> if limpiar then Some (map (\<lambda>a. f (titulo a)) articles) else None)
      in get_news_loop requests_get max_articles limpiar limpiar_fn
           (AList.update t \<lparr>raw = articles, clean = clean_titles\<rparr> result) ts)"

definition get_news_for_tickers ::
  "(string \<Rightarrow> http_result) \<Rightarrow> string list \<Rightarrow> int \<Rightarrow> bool \<Rightarrow> (string \<Rightarrow> string) option \<Rightarrow>
   (string \<times> news_info) list" where
  "get_news_for_tickers requests_get tickers max_articles limpiar limpiar_fn =
     get_news_loop requests_get max_articles limpiar limpiar_fn [] tickers"

definition get_news :: "(string \<Rightarrow> http_result) \<Rightarrow> int \<Rightarrow> string list \<Rightarrow> (string \<times> news_info) list" where
  \<comment> \<open>\<open>WebNewsAgent.get_news\<close>\<close>
  "get_news requests_get max_articles tickers =
     get_news_for_tickers requests_get tickers max_articles False None"


section \<open>Sentiment (nlp\_agent.py)\<close>

definition lower_char :: "char \<Rightarrow> char" where
  \<comment> \<open>\<open>str.lower\<close> on one character: the capital letters of U+0000..U+00FF\<close>
  "lower_char c =
     (if ascii_upper c \<or> (192 \<le> code c \<and> code c \<le> 222 \<and> code c \<noteq> 215)
      then char_of (code c + 32) else c)"

definition lower :: "string \<Rightarrow> string" where
  "lower text = map lower_char text"

definition kept_char :: "char \<Rightarrow> bool" where
  \<comment> \<open>the characters that the negated class of \<open>re.sub\<close> leaves alone: \<open>a-z\<close>, the
      five vowels with an acute accent, n with tilde, u with diaeresis, \<open>0-9\<close> and \<open>\s\<close>\<close>
  "kept_char c =
     (ascii_lower c \<or> ascii_digit c \<or> is_space c \<or>
      code c = 225 \<or> code c = 233 \<or> code c = 237 \<or> code c = 243 \<or> code c = 250 \<or>
      code c = 241 \<or> code c = 252)"

definition strip_symbols :: "string \<Rightarrow> string" where
  \<comment> \<open>\<open>re.sub(r"[^...]", " ", text)\<close>\<close>
  "strip_symbols text = map (\<lambda>c. if kept_char c then c else CHR '' '') text"

fun join_space :: "string list \<Rightarrow> string" where
  \<comment> \<open>\<open>" ".join(tokens)\<close>\<close>
  "join_space [] = []"
| "join_space [t] = t"
| "join_space (t # u # ts) = t @ CHR '' '' # join_space (u # ts)"

definition clean_text :: "(string \<Rightarrow> string list) \<Rightarrow> string set \<Rightarrow> string \<Rightarrow> string" where
  \<comment> \<open>\<open>NLPAgent._clean_text\<close>; \<open>word_tokenize\<close> is NLTK's tokenizer for Spanish and
      \<open>spanish_stopwords\<close> NLTK's list, both given from outside\<close>
  "clean_text word_tokenize spanish_stopwords text =
     join_space
       (filter (\<lambda>t. t \<notin> spanish_stopwords \<and> 2 < length t)
          (word_tokenize (strip_symbols (lower text))))"

datatype label = Positivo | Negativo | Neutral

record sentiment =
  sentiments :: "label list"
  sentiment_global :: label
  num_pos :: nat
  num_neg :: nat
  num_neu :: nat

fun py_max :: "('a \<Rightarrow> nat) \<Rightarrow> 'a \<Rightarrow> 'a list \<Rightarrow> 'a" where
  \<comment> \<open>\<open>max(items, key=key)\<close> of the items \<open>best # rest\<close>: a later item replaces the best
      so far only when its key is strictly larger\<close>
  "py_max key best [] = best"
| "py_max key best (x # xs) = (if key best < key x then py_max key x xs else py_max key best xs)"

definition counts_get :: "(label \<times> nat) list \<Rightarrow> label \<Rightarrow> nat" where
  \<comment> \<open>\<open>counts.get\<close> on the keys of \<open>counts\<close>\<close>
  "counts_get counts k = (case map_of counts k of None \<Rightarrow> 0 | Some n \<Rightarrow> n)"

definition analyze_info ::
  "(string \<Rightarrow> string list) \<Rightarrow> string set \<Rightarrow> (string \<Rightarrow> label) \<Rightarrow> news_info \<Rightarrow> sentiment" where
  \<comment> \<open>the body of the loop of \<open>NLPAgent.analyze\<close>; \<open>predict\<close> is the fitted vectorizer and
      classifier followed by \<open>int_to_label\<close>, one title at a time\<close>
  "analyze_info word_tokenize spanish_stopwords predict info =
     (let raw_articles = raw info;
          titles = map titulo (filter (\<lambda>a. titulo a \<noteq> []) raw_articles)
      in if titles = []
         then \<lparr>sentiments = [], sentiment_global = Neutral,
               num_pos = 0, num_neg = 0, num_neu = 0\<rparr>
         else
           (let cleaned_titles = map (clean_text word_tokenize spanish_stopwords) titles;
                y_pred_labels = map predict cleaned_titles;
                n_pos = length (filter (\<lambda>s. s = Positivo) y_pred_labels);
                n_neg = length (filter (\<lambda>s. s = Negativo) y_pred_labels);
                n_neu = length (filter (\<lambda>s. s = Neutral) y_pred_labels);
                counts = [(Positivo, n_pos), (Negativo, n_neg), (Neutral, n_neu)]
            in \<lparr>sentiments = y_pred_labels,
                sentiment_global = py_max (counts_get counts) Positivo [Negativo, Neutral],
                num_pos = n_pos, num_neg = n_neg, num_neu = n_neu\<rparr>))"

fun analyze_loop ::
  "(string \<Rightarrow> string list) \<Rightarrow> string set \<Rightarrow> (string \<Rightarrow> label) \<Rightarrow>
   (string \<times> sentiment) list \<Rightarrow> (string \<times> news_info) list \<Rightarrow> (string \<times> sentiment) list" where
  "analyze_loop word_tokenize spanish_stopwords predict result [] = result"
| "analyze_loop word_tokenize spanish_stopwords predict result ((ticker, info) # items) =
     analyze_loop word_tokenize spanish_stopwords predict
       (AList.update ticker (analyze_info word_tokenize spanish_stopwords predict info) result)
       items"

definition analyze ::
  "(string \<Rightarrow> string list) \<Rightarrow> string set \<Rightarrow> (string \<Rightarrow> label) \<Rightarrow>
   (string \<times> news_info) list \<Rightarrow> (string \<times> sentiment) list" where
  "analyze word_tokenize spanish_stopwords predict news_dict =
     analyze_loop word_tokenize spanish_stopwords predict [] news_dict"


section \<open>The coordinator (coordinator\_agent.py)\<close>

text \<open>
  The services that \<open>run\<close> calls and that are not code of the repository: the clock
  (the date of the call), the price feed, the news site, NLTK's tokenizer and stop words, the trained classifier, and
  the language model behind \<open>LLMAnalystAgent.build_and_call\<close>, which catches every
  exception of the model call and returns text in either case.
\<close>

record env =
  today :: int
  yf_download :: "string \<Rightarrow> int \<Rightarrow> int \<Rightarrow> string \<Rightarrow> indexed_frame"
  requests_get :: "string \<Rightarrow> http_result"
  word_tokenize :: "string \<Rightarrow> string list"
  spanish_stopwords :: "string set"
  predict :: "string \<Rightarrow> label"
  build_and_call ::
    "string \<Rightarrow> string \<Rightarrow> table \<Rightarrow> (string \<times> sentiment) list \<Rightarrow>
     (string \<times> news_info) list \<Rightarrow> string"

record analysis_record =
  rec_user_query :: string
  rec_tickers :: "string list"
  rec_market_raw :: "(string \<times> frame) list"
  rec_market_summary :: table
  rec_news :: "(string \<times> news_info) list"
  rec_sentiments :: "(string \<times> sentiment) list"
  rec_llm_answer :: string

record coordinator =
  days :: int
  interval :: string
  max_articles :: int
  llm_model_name :: string
  history :: "analysis_record list"

definition run ::
  "env \<Rightarrow> coordinator \<Rightarrow> string \<Rightarrow> string list option \<Rightarrow>
   error + (analysis_record \<times> coordinator)" where
  \<comment> \<open>\<open>CoordinatorAgent.run\<close>: the record it returns and the coordinator after the call,
      or the exception that leaves it\<close>
  "run e self user_query tickers0 =
     (let tickers =
            (case tickers0 of
               None \<Rightarrow> extract_tickers_from_query user_query
             | Some ts \<Rightarrow> if ts = [] then extract_tickers_from_query user_query else ts)
      in and_then (get_market_data (today e) (yf_download e) tickers (days self) (interval self))
           (\<lambda>market_raw.
         and_then (summarize market_raw) (\<lambda>market_summary.
           (let news_dict = get_news (requests_get e) (max_articles self) tickers;
                sents = analyze (word_tokenize e) (spanish_stopwords e) (predict e) news_dict;
                llm_answer = build_and_call e (llm_model_name self) user_query
                               market_summary sents news_dict;
                record =
                  \<lparr>rec_user_query = user_query, rec_tickers = tickers,
                   rec_market_raw = market_raw, rec_market_summary = market_summary,
                   rec_news = news_dict, rec_sentiments = sents,
                   rec_llm_answer = llm_answer\<rparr>
            in Inr (record, self\<lparr>history := history self @ [record]\<rparr>)))))"


section \<open>Notions used to state the properties\<close>

function runs_of :: "(char \<Rightarrow> bool) \<Rightarrow> string \<Rightarrow> string list" where
  \<comment> \<open>the maximal runs of characters of a class, from left to right\<close>
  "runs_of P [] = []"
| "runs_of P (c # cs) =
     (if P c then takeWhile P (c # cs) # runs_of P (dropWhile P cs) else runs_of P cs)"
  by pat_completeness auto
termination
proof (relation "measure (\<lambda>(P, s). length s)")
  show "wf (measure (\<lambda>(P, s). length s))" by simp
next
  fix P :: "char \<Rightarrow> bool" and c :: char and cs :: string
  have "length (dropWhile P cs) \<le> length cs" by (rule length_dropWhile_le)
  then show "((P, dropWhile P cs), (P, c # cs)) \<in> measure (\<lambda>(P, s). length s)" by simp
next
  fix P :: "char \<Rightarrow> bool" and c :: char and cs :: string
  show "((P, cs), (P, c # cs)) \<in> measure (\<lambda>(P, s). length s)" by simp
qed

definition ticker_shaped :: "string \<Rightarrow> bool" where
  \<comment> \<open>one to five capital ASCII letters\<close>
  "ticker_shaped w = (1 \<le> length w \<and> length w \<le> 5 \<and> list_all ascii_upper w)"

primrec first_occurrences :: "'a list \<Rightarrow> 'a list" where
  \<comment> \<open>duplicates removed, every item staying at its first occurrence\<close>
  "first_occurrences [] = []"
| "first_occurrences (x # xs) = x # removeAll x (first_occurrences xs)"


definition py_split :: "string \<Rightarrow> string list" where
  \<comment> \<open>\<open>str.split()\<close>: the maximal runs of characters that are not white space\<close>
  "py_split s = runs_of (\<lambda>c. \<not> is_space c) s"

definition summary_columns :: "string list" where
  "summary_columns = [''ticker'', ''fecha_inicio'', ''fecha_fin'',
                      ''precio_inicio'', ''precio_fin'', ''variacion_pct'']"

definition effective_tickers :: "string \<Rightarrow> string list option \<Rightarrow> string list" where
  \<comment> \<open>the ticker list that \<open>run\<close> works with\<close>
  "effective_tickers q tickers0 =
     (case tickers0 of None \<Rightarrow> extract_tickers_from_query q
      | Some ts \<Rightarrow> if ts = [] then extract_tickers_from_query q else ts)"

definition window_ok :: "int \<Rightarrow> int \<Rightarrow> bool" where
  \<comment> \<open>the start date \<open>today - days\<close> of the price window is a date\<close>
  "window_ok today_ord d =
     (- 999999999 \<le> d \<and> d \<le> 999999999 \<and> 1 \<le> today_ord - d \<and> today_ord - d \<le> 3652059)"

definition fake_titles :: "string \<Rightarrow> string list" where
  \<comment> \<open>the three headlines of the fallback, for a ticker\<close>
  "fake_titles ticker =
     [ticker @ '': La compa'' @ [CHR 0xF1, CHR 0xED] @
        ''a reporta resultados trimestrales mejor de lo esperado.'',
      ticker @ '': Analistas revisan sus perspectivas para la acci'' @ [CHR 0xF3] @ ''n.'',
      ticker @ '': Noticias mixtas en el sector impactan el desempe'' @ [CHR 0xF1] @
        ''o reciente.'']"

definition tie_break :: "nat \<Rightarrow> nat \<Rightarrow> nat \<Rightarrow> label" where
  \<comment> \<open>the label of three counts: the largest, and among equals positive before negative
      before neutral\<close>
  "tie_break pos neg neu =
     (if neg \<le> pos \<and> neu \<le> pos then Positivo
      else if neu \<le> neg then Negativo else Neutral)"

definition label_count :: "sentiment \<Rightarrow> label \<Rightarrow> nat" where
  "label_count r l =
     (case l of Positivo \<Rightarrow> num_pos r | Negativo \<Rightarrow> num_neg r | Neutral \<Rightarrow> num_neu r)"

definition normal_text :: "string \<Rightarrow> bool" where
  \<comment> \<open>a text over the characters that normalization keeps\<close>
  "normal_text s = list_all kept_char s"


section \<open>A sample environment\<close>

text \<open>
  Concrete services on which the functions above are evaluated: a feed with an
  unsorted rising series for AAPL, a series that starts at price zero for ZERO and no
  data for any other ticker; a news site that answers with a page for AAPL, with
  status 404 for NVDA and with a connection error otherwise; \<open>str.split\<close> as the
  tokenizer.
\<close>

definition sample_frame :: "rat \<Rightarrow> rat \<Rightarrow> indexed_frame" where
  "sample_frame p0 p1 =
     \<lparr>columns = [''Close'', ''Volume''],
      rows = [[Num p1, Num 10], [Num p0, Num 20]],
      index_name = ''Date'',
      index = [Stamp 172800, Stamp 86400]\<rparr>"

definition sample_download :: "string \<Rightarrow> int \<Rightarrow> int \<Rightarrow> string \<Rightarrow> indexed_frame" where
  "sample_download t start_date end_date i =
     (if t = ''AAPL'' then sample_frame 100 110
      else if t = ''ZERO'' then sample_frame 0 5
      else \<lparr>columns = [''Close'', ''Volume''], rows = [], index_name = ''Date'', index = []\<rparr>)"

definition sample_get :: "string \<Rightarrow> http_result" where
  "sample_get u =
     (if u = base_url ''AAPL''
      then Response 200 [(''/news/a1'', ''Apple sube con fuerza''), (''/quote/AAPL'', ''Resumen''),
                         (''/news/a2'', []), (''https://example.org/news/a3'', ''Apple baja'')]
      else if u = base_url ''NVDA'' then Response 404 [(''/news/n1'', ''Nvidia sube'')]
      else Raised)"

definition sample_predict :: "string \<Rightarrow> label" where
  "sample_predict s =
     (if contains ''sube'' s then Positivo else if contains ''baja'' s then Negativo
      else Neutral)"

definition sample_env :: env where
  "sample_env =
     \<lparr>today = 739000,
      yf_download = sample_download,
      requests_get = sample_get,
      word_tokenize = py_split,
      spanish_stopwords = {''con'', ''los'', ''las''},
      predict = sample_predict,
      build_and_call = (\<lambda>m q t s n. ''Informe simulado'')\<rparr>"

definition sample_coordinator :: coordinator where
  "sample_coordinator =
     \<lparr>days = 7, interval = ''1d'', max_articles = 5, llm_model_name = ''llama3'',
      history = []\<rparr>"


definition sample_market :: "(string \<times> frame) list" where
  "sample_market =
     [(''AAPL'', reset_index (sample_frame 100 110)),
      (''ZERO'', reset_index (sample_frame 0 5))]"

definition sample_news :: "(string \<times> news_info) list" where
  "sample_news =
     [(''AAPL'',
       \<lparr>raw = [\<lparr>titulo = ''Apple sube con fuerza'', url = None\<rparr>,
               \<lparr>titulo = [], url = None\<rparr>,
               \<lparr>titulo = ''Apple baja'', url = None\<rparr>],
        clean = None\<rparr>),
      (''NVDA'', \<lparr>raw = [\<lparr>titulo = [], url = None\<rparr>], clean = None\<rparr>)]"


section \<open>Ticker extraction: properties\<close>

lemma upper_word: "ascii_upper c \<Longrightarrow> is_word c"
  by (simp add: is_word_def is_letter_def)

lemma backtrack_char:
  assumes "k \<le> m" and "m \<le> length s" and "\<forall>i<m. ascii_upper (s ! i)"
  shows "backtrack s k = (if k = m \<and> 0 < m \<and> \<not> opt_word (head_opt (drop m s)) then Some m else None)"
  using assms
proof (induction k)
  case 0
  then show ?case by auto
next
  case (Suc k)
  have w: "is_word (s ! k)" using Suc.prems by (auto intro: upper_word)
  show ?case
  proof (cases "Suc k = m")
    case True
    have "backtrack s k = None" using Suc True by auto
    then show ?thesis using True w by (auto simp: boundary_def)
  next
    case False
    then have lt: "Suc k < m" using Suc.prems by simp
    then have "drop (Suc k) s = s ! Suc k # drop (Suc (Suc k)) s"
      using Suc.prems by (simp add: Cons_nth_drop_Suc)
    moreover have "is_word (s ! Suc k)" using lt Suc.prems by (auto intro: upper_word)
    ultimately have "\<not> boundary (Some (s ! k)) (drop (Suc k) s)"
      using w by (simp add: boundary_def)
    then show ?thesis using Suc lt by auto
  qed
qed

lemma removeAll_first_occurrences:
  "removeAll x (first_occurrences xs) = first_occurrences (removeAll x xs)"
proof (induction xs)
  case Nil
  then show ?case by simp
next
  case (Cons a xs)
  have comm: "removeAll x (removeAll a ys) = removeAll a (removeAll x ys)" for ys :: "'a list"
    by (induction ys) auto
  show ?case
  proof (cases "a = x")
    case True
    have "removeAll x (first_occurrences (a # xs)) = removeAll x (first_occurrences xs)"
      using True by simp
    then show ?thesis using Cons True by simp
  next
    case False
    then show ?thesis using Cons by (simp add: comm)
  qed
qed

lemma dedup_loop_eq:
  "dedup_loop seen acc xs = acc @ first_occurrences (filter (\<lambda>x. x \<notin> seen) xs)"
proof (induction xs arbitrary: seen acc)
  case Nil
  then show ?case by simp
next
  case (Cons t ts)
  have "removeAll t (filter (\<lambda>x. x \<notin> seen) ts) = filter (\<lambda>x. x \<notin> insert t seen) ts"
    by (induction ts) auto
  then show ?case using Cons by (simp add: removeAll_first_occurrences)
qed


lemma takeWhile_take_commute:
  "takeWhile P (take n s) = take n (takeWhile P s)"
  by (induction s arbitrary: n) (auto simp: take_Cons split: nat.splits)

lemma no_word_head_dropWhile: "\<not> opt_word (head_opt (dropWhile is_word s))"
  by (induction s) auto

lemma no_word_head_takeWhile:
  assumes "\<not> opt_word (head_opt s)"
  shows "takeWhile is_word s = []" and "takeWhile ascii_upper s = []"
  using assms by (cases s; auto dest: upper_word)+

lemma greedy_prefix:
  fixes s :: string
  defines "m \<equiv> length (takeWhile ascii_upper (take 5 s))"
  shows "m \<le> 5" and "m \<le> length s" and "list_all ascii_upper (take m s)"
    and "m = min 5 (length (takeWhile ascii_upper s))"
proof -
  let ?t = "takeWhile ascii_upper (take 5 s)"
  have le: "m \<le> length (take 5 s)" unfolding m_def by (rule length_takeWhile_le)
  then show "m \<le> 5" and "m \<le> length s" by simp_all
  have "?t = take m (take 5 s)" unfolding m_def by (rule takeWhile_eq_take)
  also have "\<dots> = take m s" using le by (auto simp: min_def split: if_splits)
  finally have t: "?t = take m s" .
  have "list_all ascii_upper ?t" by (auto simp: list_all_iff dest: set_takeWhileD)
  then show "list_all ascii_upper (take m s)" by (simp add: t)
  show "m = min 5 (length (takeWhile ascii_upper s))"
    unfolding m_def by (simp add: takeWhile_take_commute)
qed

lemma match_here_char:
  "match_here prev s =
     (if \<not> opt_word prev \<and> ticker_shaped (takeWhile is_word s)
      then Some (length (takeWhile is_word s)) else None)"
proof -
  define m where "m = length (takeWhile ascii_upper (take 5 s))"
  note g = greedy_prefix [of s, folded m_def]
  have nth: "\<forall>i<m. ascii_upper (s ! i)"
    using g(2,3) by (auto simp: list_all_length)
  have bt: "backtrack s m = (if 0 < m \<and> \<not> opt_word (head_opt (drop m s)) then Some m else None)"
    using backtrack_char [of m m s] g(2) nth by simp
  show ?thesis
  proof (cases "boundary prev s")
    case False
    then have "opt_word prev \<or> takeWhile is_word s = []"
      using no_word_head_takeWhile(1) [of s] by (auto simp: boundary_def)
    then show ?thesis using False by (auto simp: match_here_def ticker_shaped_def)
  next
    case True
    show ?thesis
    proof (cases "opt_word prev")
      case pw: True
      then have "\<not> opt_word (head_opt s)" using True by (simp add: boundary_def)
      then have "m = 0" using no_word_head_takeWhile(2) [of s] g(4) by simp
      then show ?thesis using True pw by (simp add: match_here_def m_def)
    next
      case pw: False
      let ?r = "takeWhile is_word s" and ?rest = "dropWhile is_word s"
      have split: "s = ?r @ ?rest" by simp
      have fwd: "?r = take m s" if "0 < m" and "\<not> opt_word (head_opt (drop m s))"
      proof -
        have "is_word c" if "c \<in> set (take m s)" for c
          using g(3) that by (auto simp: list_all_iff intro: upper_word)
        then have "takeWhile is_word (take m s @ drop m s) = take m s @ takeWhile is_word (drop m s)"
          by (rule takeWhile_append2)
        then show ?thesis using no_word_head_takeWhile(1) [OF that(2)] by simp
      qed
      have bwd: "m = length ?r \<and> 0 < m \<and> drop m s = ?rest" if "ticker_shaped ?r"
      proof -
        have "ascii_upper c" if "c \<in> set ?r" for c
          using \<open>ticker_shaped ?r\<close> that by (simp add: ticker_shaped_def list_all_iff)
        then have "takeWhile ascii_upper (?r @ ?rest) = ?r @ takeWhile ascii_upper ?rest"
          by (rule takeWhile_append2)
        then have "takeWhile ascii_upper s = ?r"
          using no_word_head_takeWhile(2) [OF no_word_head_dropWhile [of s]] by simp
        then have m: "m = length ?r" using g(4) that by (simp add: ticker_shaped_def)
        have "drop (length ?r) s = ?rest" by (rule dropWhile_eq_drop [symmetric])
        then show ?thesis using m that by (auto simp: ticker_shaped_def)
      qed
      have iff: "(0 < m \<and> \<not> opt_word (head_opt (drop m s))) = ticker_shaped ?r"
      proof
        assume a: "0 < m \<and> \<not> opt_word (head_opt (drop m s))"
        then have "?r = take m s" using fwd by simp
        then show "ticker_shaped ?r" using a g(1,2,3) by (simp add: ticker_shaped_def)
      next
        assume "ticker_shaped ?r"
        then show "0 < m \<and> \<not> opt_word (head_opt (drop m s))"
          using bwd no_word_head_dropWhile [of s] by auto
      qed
      have len: "length ?r = m" if "ticker_shaped ?r" using bwd that by simp
      show ?thesis using True pw bt iff len by (auto simp: match_here_def m_def)
    qed
  qed
qed


lemma findall_runs:
  "findall prev s =
     filter ticker_shaped (runs_of is_word (if opt_word prev then dropWhile is_word s else s))"
proof (induction prev s rule: findall.induct)
  case (1 prev s)
  let ?r = "takeWhile is_word s" and ?rest = "dropWhile is_word s"
  show ?case
  proof (cases "\<not> opt_word prev \<and> ticker_shaped ?r")
    case True
    define n where "n = length ?r"
    have m: "match_here prev s = Some n" using True by (simp add: match_here_char n_def)
    have pos: "0 < n" using True by (auto simp: ticker_shaped_def n_def)
    have r: "take n s = ?r" unfolding n_def by (rule takeWhile_eq_take [symmetric])
    have rest: "drop n s = ?rest" unfolding n_def by (rule dropWhile_eq_drop [symmetric])
    have "s ! (n - 1) = ?r ! (n - 1)"
      using pos unfolding n_def by (simp add: takeWhile_nth)
    moreover have "?r ! (n - 1) \<in> set ?r" using pos unfolding n_def by simp
    ultimately have w: "is_word (s ! (n - 1))" by (auto dest: set_takeWhileD)
    have "findall (Some (s ! (n - 1))) (drop n s) = filter ticker_shaped (runs_of is_word ?rest)"
      using "1.IH"(2) [OF m] w rest by simp
    then have lhs: "findall prev s = ?r # filter ticker_shaped (runs_of is_word ?rest)"
      using m r by (simp add: findall.simps [of prev s])
    obtain c cs where s: "s = c # cs" and c: "is_word c"
      using pos unfolding n_def by (cases s) (auto split: if_splits)
    have "runs_of is_word s = ?r # runs_of is_word ?rest"
      using c by (simp add: s)
    then show ?thesis using lhs True by simp
  next
    case False
    then have m: "match_here prev s = None" by (simp add: match_here_char)
    show ?thesis
    proof (cases s)
      case Nil
      have "findall prev s = []"
        using m Nil by (subst findall.simps) simp
      then show ?thesis using Nil by simp
    next
      case (Cons c cs)
      have "findall prev s = findall (Some c) cs"
        using m Cons by (subst findall.simps) simp
      also have "\<dots> = filter ticker_shaped
          (runs_of is_word (if is_word c then dropWhile is_word cs else cs))"
        using "1.IH"(1) [OF m Cons] by simp
      finally show ?thesis using False Cons by auto
    qed
  qed
qed


text \<open>
  C3, as the code has it. For every query, \<open>extract_tickers_from_query\<close> returns the
  maximal runs of word characters (letters, digits, underscore) that consist of one to
  five capital ASCII letters, in the order of their first occurrence and without
  duplicates: a run of capitals next to a digit or an underscore is not a ticker. The
  query of the docstring gives AAPL and NVDA; the empty query, a blank one and one
  without such a run give the empty list.
\<close>

theorem extract_tickers_word_runs:
  "extract_tickers_from_query q = first_occurrences (filter ticker_shaped (runs_of is_word q))
   \<and> extract_tickers_from_query ''Analiza AAPL y NVDA esta semana'' = [''AAPL'', ''NVDA'']
   \<and> extract_tickers_from_query ''AAPL AAPL NVDA'' = [''AAPL'', ''NVDA'']
   \<and> extract_tickers_from_query [] = []
   \<and> extract_tickers_from_query ''   '' = []
   \<and> extract_tickers_from_query ''sin simbolos aqui'' = []"
proof -
  have "extract_tickers_from_query q = first_occurrences (filter ticker_shaped (runs_of is_word q))"
    by (simp add: extract_tickers_from_query_def dedup_loop_eq findall_runs)
  moreover have "extract_tickers_from_query ''Analiza AAPL y NVDA esta semana'' = [''AAPL'', ''NVDA'']"
    by code_simp
  moreover have "extract_tickers_from_query ''AAPL AAPL NVDA'' = [''AAPL'', ''NVDA'']"
    by code_simp
  moreover have "extract_tickers_from_query [] = []"
    by code_simp
  moreover have "extract_tickers_from_query ''   '' = []"
    by code_simp
  moreover have "extract_tickers_from_query ''sin simbolos aqui'' = []"
    by code_simp
  ultimately show ?thesis by (intro conjI)
qed

theorem extract_tickers_word_runs_witness:
  "extract_tickers_from_query ''Compra MSFT_2 o R2D2, luego MSFT y GOOGLE y IBM''
     = first_occurrences (filter ticker_shaped
         (runs_of is_word ''Compra MSFT_2 o R2D2, luego MSFT y GOOGLE y IBM''))
   \<and> extract_tickers_from_query ''Compra MSFT_2 o R2D2, luego MSFT y GOOGLE y IBM''
     = [''MSFT'', ''IBM'']"
proof -
  have "extract_tickers_from_query ''Compra MSFT_2 o R2D2, luego MSFT y GOOGLE y IBM''
          = [''MSFT'', ''IBM'']"
    by code_simp
  moreover have "extract_tickers_from_query ''Compra MSFT_2 o R2D2, luego MSFT y GOOGLE y IBM''
     = first_occurrences (filter ticker_shaped
         (runs_of is_word ''Compra MSFT_2 o R2D2, luego MSFT y GOOGLE y IBM''))"
    by (rule extract_tickers_word_runs [THEN conjunct1])
  ultimately show ?thesis by (intro conjI)
qed

text \<open>
  C3, as it is written, reads the boundary as "not a letter". The run AAPL of the query
  \<open>AAPL1\<close> lies between the start of the text and a digit, so the claim makes it a
  ticker; the pattern's \<open>\b\<close> does not end a word before a digit, and the code returns
  nothing.
\<close>

theorem extract_tickers_letter_runs_counterexample:
  "extract_tickers_from_query ''AAPL1'' = []
   \<and> first_occurrences (filter ticker_shaped (runs_of is_letter ''AAPL1'')) = [''AAPL'']"
proof -
  have "extract_tickers_from_query ''AAPL1'' = []"
    by code_simp
  moreover have "first_occurrences (filter ticker_shaped (runs_of is_letter ''AAPL1'')) = [''AAPL'']"
    by code_simp
  ultimately show ?thesis by (intro conjI)
qed

section \<open>Market summary: properties\<close>

lemma summarize_row_keys:
  assumes "summarize_row t df = Inr r"
  shows "map fst r = summary_columns"
  using assms
  by (auto simp: summarize_row_def and_then_def Let_def summary_columns_def
      split: list.splits sum.splits)

lemma summarize_loop_rows:
  assumes "summarize_loop acc d = Inr rs"
  shows "\<exists>new. rs = acc @ new \<and> length new = length d \<and>
           list_all (\<lambda>r. map fst r = summary_columns) new"
  using assms
proof (induction d arbitrary: acc)
  case Nil
  then show ?case by simp
next
  case (Cons p d)
  obtain t df where p: "p = (t, df)" by (cases p)
  from Cons.prems p obtain r where r: "summarize_row t df = Inr r"
    and rest: "summarize_loop (acc @ [r]) d = Inr rs"
    by (auto split: sum.splits)
  from Cons.IH [OF rest] obtain new where
    "rs = (acc @ [r]) @ new" "length new = length d"
    "list_all (\<lambda>r. map fst r = summary_columns) new" by blast
  then show ?case using summarize_row_keys [OF r]
    by (intro exI [of _ "r # new"]) simp
qed

lemma dedup_loop_seen:
  "set xs \<subseteq> seen \<Longrightarrow> dedup_loop seen acc xs = acc"
  by (induction xs arbitrary: acc) auto

lemma dedup_loop_append:
  "dedup_loop seen acc (xs @ ys) =
     dedup_loop (seen \<union> set xs) (dedup_loop seen acc xs) ys"
  by (induction xs arbitrary: seen acc) (auto simp: insert_absorb)

lemma DataFrame_columns:
  assumes "rs \<noteq> []" and "list_all (\<lambda>r. map fst r = summary_columns) rs"
  shows "tcolumns (DataFrame rs) = summary_columns"
proof -
  obtain r rest where rs: "rs = r # rest" using assms(1) by (cases rs) auto
  have r: "map fst r = summary_columns" using assms(2) rs by simp
  have sub: "set (concat (map (map fst) rest)) \<subseteq> set summary_columns"
    using assms(2) rs by (auto simp: list_all_iff)
  have d: "dedup_loop {} [] summary_columns = summary_columns"
    by (simp add: summary_columns_def)
  have "dedup_loop {} [] (concat (map (map fst) rs))
          = dedup_loop ({} \<union> set summary_columns) (dedup_loop {} [] summary_columns)
              (concat (map (map fst) rest))"
    unfolding rs by (simp only: list.map concat.simps r dedup_loop_append)
  also have "\<dots> = summary_columns"
    using sub by (simp add: d dedup_loop_seen)
  finally show ?thesis by (simp add: DataFrame_def)
qed

text \<open>
  C4. \<open>summarize\<close> of the empty mapping does not fail and returns the table with no rows
  and the six columns ticker, fecha\_inicio, fecha\_fin, precio\_inicio, precio\_fin,
  variacion\_pct; every table it returns for a non-empty mapping has the same columns
  in the same order, and one row for each ticker.
\<close>

theorem summarize_empty_same_columns:
  "summarize [] = Inr \<lparr>tcolumns = summary_columns, trows = []\<rparr>
   \<and> (\<forall>d t. d \<noteq> [] \<and> summarize d = Inr t \<longrightarrow>
         tcolumns t = summary_columns \<and> length (trows t) = length d)"
proof (intro conjI allI impI)
  show "summarize [] = Inr \<lparr>tcolumns = summary_columns, trows = []\<rparr>"
    by (simp add: summarize_def summary_columns_def)
next
  fix d t assume a: "d \<noteq> [] \<and> summarize d = Inr t"
  then obtain rs where rs: "summarize_loop [] d = Inr rs" and t: "t = DataFrame rs"
    by (auto simp: summarize_def summarize_market_data_def split: sum.splits)
  from summarize_loop_rows [OF rs] have len: "length rs = length d"
    and keys: "list_all (\<lambda>r. map fst r = summary_columns) rs" by auto
  then have "rs \<noteq> []" using a by auto
  then have "tcolumns t = summary_columns" using keys t by (simp add: DataFrame_columns)
  moreover have "length (trows t) = length d" using len t by (simp add: DataFrame_def)
  ultimately show "tcolumns t = summary_columns" and "length (trows t) = length d" by simp_all
qed

theorem summarize_empty_same_columns_witness:
  "summarize [] = Inr \<lparr>tcolumns = summary_columns, trows = []\<rparr>
   \<and> (\<exists>t. summarize [(''AAPL'', reset_index (sample_frame 100 110))] = Inr t
          \<and> tcolumns t = summary_columns \<and> length (trows t) = 1)"
proof -
  let ?d = "[(''AAPL'', reset_index (sample_frame 100 110))]"
  have "\<not> isl (summarize ?d)" by code_simp
  then obtain t where t: "summarize ?d = Inr t" by (cases "summarize ?d") auto
  have ne: "?d \<noteq> []" by simp
  from summarize_empty_same_columns have e: "summarize [] = Inr \<lparr>tcolumns = summary_columns, trows = []\<rparr>"
    and all: "\<forall>d t. d \<noteq> [] \<and> summarize d = Inr t \<longrightarrow>
         tcolumns t = summary_columns \<and> length (trows t) = length d" by blast+
  from all ne t have "tcolumns t = summary_columns \<and> length (trows t) = length ?d" by blast
  then have "summarize ?d = Inr t \<and> tcolumns t = summary_columns \<and> length (trows t) = 1"
    using t by simp
  then have "\<exists>t. summarize ?d = Inr t \<and> tcolumns t = summary_columns \<and> length (trows t) = 1" ..
  with e show ?thesis by (intro conjI)
qed

lemma zero_start_row:
  assumes "columns df = col0 # cs"
    and "sort_key first_key (rows df) = first_row # others"
    and "getitem (columns df) first_row (price_col df) = Inr (Num 0)"
    and "getitem (columns df) (last (first_row # others)) (price_col df) = Inr (Num p_end)"
  shows "summarize_row t df = Inl ZeroDivisionError"
  using assms by (simp add: summarize_row_def and_then_def to_float_def py_div_def)

lemma summarize_loop_raises:
  assumes "list_all (\<lambda>p. \<not> isl (summarize_row (fst p) (snd p))) before"
    and "summarize_row t df = Inl err"
  shows "summarize_loop acc (before @ (t, df) # after) = Inl err"
  using assms
proof (induction before arbitrary: acc)
  case Nil
  then show ?case by simp
next
  case (Cons p before)
  obtain t' df' where p: "p = (t', df')" by (cases p)
  from Cons.prems(1) p obtain r where "summarize_row t' df' = Inr r"
    by (cases "summarize_row t' df'") auto
  then show ?case using Cons p by simp
qed

lemma run_raises:
  assumes "get_market_data (today e) (yf_download e) (effective_tickers q ts) (days c)
             (interval c) = Inr market_raw"
    and "summarize market_raw = Inl err"
  shows "run e c q ts = Inl err"
  using assms by (simp add: run_def effective_tickers_def and_then_def Let_def)

lemma get_market_data_window:
  "get_market_data today_date download tickers d i =
     (if window_ok today_date d
      then Inr (get_market_data_loop download (today_date - d) today_date i [] tickers)
      else Inl OverflowError)"
  by (simp add: get_market_data_def timedelta_def date_sub_def and_then_def window_ok_def)

lemma run_overflow:
  assumes "\<not> window_ok (today e) (days c)"
  shows "run e c q ts = Inl OverflowError"
  using assms by (simp add: run_def get_market_data_window and_then_def)

lemma run_overflow_sample:
  "run sample_env (sample_coordinator\<lparr>days := 1000000\<rparr>) ''hola, que tal'' None
     = Inl OverflowError"
proof -
  have "\<not> window_ok (today sample_env) (days (sample_coordinator\<lparr>days := 1000000\<rparr>))"
    by code_simp
  then show ?thesis by (rule run_overflow)
qed


text \<open>
  C1, as the code has it. When the series of a ticker starts at price zero, the
  percent change raises ZeroDivisionError (it gives no NaN and no infinity). Nothing
  catches it: if no earlier ticker of the fetched mapping raised, \<open>summarize_market_data\<close>
  raises ZeroDivisionError and so does \<open>run\<close>, which returns no record and appends
  nothing to the history.
\<close>

theorem zero_start_price_raises:
  assumes "get_market_data (today e) (yf_download e) (effective_tickers q ts) (days c)
             (interval c) = Inr (before @ (t, df) # after)"
    and "list_all (\<lambda>p. \<not> isl (summarize_row (fst p) (snd p))) before"
    and "columns df = col0 # cs"
    and "sort_key first_key (rows df) = first_row # others"
    and "getitem (columns df) first_row (price_col df) = Inr (Num 0)"
    and "getitem (columns df) (last (first_row # others)) (price_col df) = Inr (Num p_end)"
  shows "summarize_row t df = Inl ZeroDivisionError
         \<and> summarize_market_data (before @ (t, df) # after) = Inl ZeroDivisionError
         \<and> run e c q ts = Inl ZeroDivisionError"
proof -
  have row: "summarize_row t df = Inl ZeroDivisionError"
    using assms(3-6) by (rule zero_start_row)
  have loop: "summarize_loop [] (before @ (t, df) # after) = Inl ZeroDivisionError"
    using assms(2) row by (rule summarize_loop_raises)
  then have smd: "summarize_market_data (before @ (t, df) # after) = Inl ZeroDivisionError"
    by (simp add: summarize_market_data_def)
  then have "summarize (before @ (t, df) # after) = Inl ZeroDivisionError"
    by (simp add: summarize_def)
  with assms(1) have "run e c q ts = Inl ZeroDivisionError"
    by (rule run_raises)
  with row smd show ?thesis by (intro conjI)
qed

theorem zero_start_price_raises_witness:
  "summarize_row ''ZERO'' (reset_index (sample_frame 0 5)) = Inl ZeroDivisionError
   \<and> summarize_market_data
        ([(''AAPL'', reset_index (sample_frame 100 110))] @
         (''ZERO'', reset_index (sample_frame 0 5)) # [])
       = Inl ZeroDivisionError
   \<and> run sample_env sample_coordinator ''Analiza AAPL y ZERO'' None = Inl ZeroDivisionError"
proof -
  let ?df = "reset_index (sample_frame 0 5)"
  have h1: "get_market_data (today sample_env) (yf_download sample_env)
              (effective_tickers ''Analiza AAPL y ZERO'' None)
              (days sample_coordinator) (interval sample_coordinator)
            = Inr ([(''AAPL'', reset_index (sample_frame 100 110))] @ (''ZERO'', ?df) # [])"
    by code_simp
  have h2: "list_all (\<lambda>p. \<not> isl (summarize_row (fst p) (snd p)))
              [(''AAPL'', reset_index (sample_frame 100 110))]"
    by code_simp
  have h3: "columns ?df = ''Date'' # [''Close'', ''Volume'']"
    by code_simp
  have h4: "sort_key first_key (rows ?df)
              = [Stamp 86400, Num 0, Num 20] # [[Stamp 172800, Num 5, Num 10]]"
    by code_simp
  have h5: "getitem (columns ?df) [Stamp 86400, Num 0, Num 20] (price_col ?df) = Inr (Num 0)"
    by code_simp
  have h6: "getitem (columns ?df) (last ([Stamp 86400, Num 0, Num 20] # [[Stamp 172800, Num 5, Num 10]]))
              (price_col ?df) = Inr (Num 5)"
    by code_simp
  show ?thesis by (rule zero_start_price_raises [OF h1 h2 h3 h4 h5 h6])
qed

text \<open>
  C1, as it is written, says that such a run does not raise and gives a record for the
  other tickers. On the sample feed, a query that names ZERO and AAPL ends with the
  exception.
\<close>

theorem run_zero_start_price_counterexample:
  "run sample_env sample_coordinator ''Analiza ZERO y AAPL'' None = Inl ZeroDivisionError"
  by code_simp


section \<open>News: properties\<close>

lemma fake_news_shape:
  "map titulo (fake_news_for_ticker t n) = py_prefix n (fake_titles t)"
  "list_all (\<lambda>a. url a = None) (fake_news_for_ticker t n)"
  "int (length (fake_news_for_ticker t n)) = (if 0 \<le> n then min n 3 else max 0 (3 + n))"
proof -
  have eq: "fake_news_for_ticker t n =
              map (\<lambda>x. \<lparr>titulo = x, url = None\<rparr>) (py_prefix n (fake_titles t))"
    by (simp add: fake_news_for_ticker_def fake_titles_def Let_def)
  show "map titulo (fake_news_for_ticker t n) = py_prefix n (fake_titles t)"
    unfolding eq by (simp add: comp_def)
  show "list_all (\<lambda>a. url a = None) (fake_news_for_ticker t n)"
    unfolding eq by (simp add: list_all_iff)
  have "length (fake_titles t) = 3" by (simp add: fake_titles_def)
  then show "int (length (fake_news_for_ticker t n)) = (if 0 \<le> n then min n 3 else max 0 (3 + n))"
    unfolding eq by (auto simp: py_prefix_def)
qed

lemma articles_for_fallback:
  assumes "rg (base_url t) = Raised \<or>
           (\<exists>st links. rg (base_url t) = Response st links \<and>
              (st \<noteq> 200 \<or> collect_articles n [] links = []))"
  shows "articles_for rg t n = fake_news_for_ticker t n"
  using assms by (auto simp: articles_for_def)

lemma get_news_loop_lookup:
  "map_of (get_news_loop rg n l f result ts) t =
     (if t \<in> set ts
      then Some \<lparr>raw = articles_for rg t n,
                 clean = (case f of None \<Rightarrow> None
                          | Some g \<Rightarrow> if l then Some (map (\<lambda>a. g (titulo a)) (articles_for rg t n))
                                      else None)\<rparr>
      else map_of result t)"
  by (induction ts arbitrary: result) (auto simp: update_conv' Let_def)

lemma fallback_entry:
  assumes "t \<in> set tickers"
    and "rg (base_url t) = Raised \<or>
         (\<exists>st links. rg (base_url t) = Response st links \<and>
            (st \<noteq> 200 \<or> collect_articles n [] links = []))"
  shows "\<exists>info. map_of (get_news_for_tickers rg tickers n l f) t = Some info
            \<and> raw info = fake_news_for_ticker t n"
  using assms(1) articles_for_fallback [of rg t n, OF assms(2)]
  by (simp add: get_news_for_tickers_def get_news_loop_lookup)

text \<open>
  C2, as the code has it. When the fetch for a ticker raises, answers with a status
  other than 200, or gives no headline, the entry of the ticker holds the first
  \<open>max_articles\<close> of the three fixed headlines: \<open>min(max_articles, 3)\<close> items for a
  count that is not negative (for a negative one, three less its size, and none below
  that), each with an absent URL.
\<close>

theorem news_fallback_items:
  assumes "t \<in> set tickers"
    and "rg (base_url t) = Raised \<or>
         (\<exists>st links. rg (base_url t) = Response st links \<and>
            (st \<noteq> 200 \<or> collect_articles n [] links = []))"
  shows "\<exists>info. map_of (get_news_for_tickers rg tickers n l f) t = Some info
            \<and> raw info = fake_news_for_ticker t n
            \<and> map titulo (raw info) = py_prefix n (fake_titles t)
            \<and> list_all (\<lambda>a. url a = None) (raw info)
            \<and> int (length (raw info)) = (if 0 \<le> n then min n 3 else max 0 (3 + n))"
proof -
  from fallback_entry [of t tickers rg n l f, OF assms] obtain info where
    i: "map_of (get_news_for_tickers rg tickers n l f) t = Some info"
    and r: "raw info = fake_news_for_ticker t n" by blast
  have "map titulo (raw info) = py_prefix n (fake_titles t)"
    and "list_all (\<lambda>a. url a = None) (raw info)"
    and "int (length (raw info)) = (if 0 \<le> n then min n 3 else max 0 (3 + n))"
    unfolding r by (rule fake_news_shape)+
  with i r show ?thesis by blast
qed

theorem news_fallback_items_witness:
  "\<exists>info. map_of (get_news_for_tickers sample_get [''AAPL'', ''NVDA''] 2 False None) ''NVDA''
             = Some info
      \<and> raw info = fake_news_for_ticker ''NVDA'' 2
      \<and> map titulo (raw info) = py_prefix 2 (fake_titles ''NVDA'')
      \<and> list_all (\<lambda>a. url a = None) (raw info)
      \<and> int (length (raw info)) = (if (0::int) \<le> 2 then min 2 3 else max 0 (3 + 2))"
proof -
  have m: "''NVDA'' \<in> set [''AAPL'', ''NVDA'']" by simp
  have "sample_get (base_url ''NVDA'') = Response 404 [(''/news/n1'', ''Nvidia sube'')]"
    by code_simp
  then have h: "sample_get (base_url ''NVDA'') = Raised \<or>
         (\<exists>st links. sample_get (base_url ''NVDA'') = Response st links \<and>
            (st \<noteq> 200 \<or> collect_articles 2 [] links = []))"
    by simp
  show ?thesis
    by (rule news_fallback_items [of "''NVDA''" "[''AAPL'', ''NVDA'']" sample_get 2 False None, OF m h])
qed

text \<open>
  C2, as it is written, promises \<open>max_articles\<close> items. With the default of five and a
  fetch that raises, the entry has the three fixed headlines.
\<close>

theorem news_fallback_five_counterexample:
  "map_of (get_news_for_tickers (\<lambda>u. Raised) [''AAPL''] 5 False None) ''AAPL''
     = Some \<lparr>raw = fake_news_for_ticker ''AAPL'' 5, clean = None\<rparr>
   \<and> length (fake_news_for_ticker ''AAPL'' 5) = 3"
proof -
  have "map_of (get_news_for_tickers (\<lambda>u. Raised) [''AAPL''] 5 False None) ''AAPL''
     = Some \<lparr>raw = fake_news_for_ticker ''AAPL'' 5, clean = None\<rparr>"
    by (simp add: get_news_for_tickers_def articles_for_def)
  moreover have "length (fake_news_for_ticker ''AAPL'' 5) = 3"
    by (simp add: fake_news_for_ticker_def py_prefix_def)
  ultimately show ?thesis by (intro conjI)
qed


section \<open>Sentiment: properties\<close>

lemma update_fresh: "k \<notin> fst ` set al \<Longrightarrow> AList.update k v al = al @ [(k, v)]"
  by (induction al) auto

lemma analyze_loop_map:
  assumes "distinct (map fst result @ map fst items)"
  shows "analyze_loop tok st p result items =
           result @ map (\<lambda>(t, i). (t, analyze_info tok st p i)) items"
  using assms
proof (induction items arbitrary: result)
  case Nil
  then show ?case by simp
next
  case (Cons x items)
  obtain t i where x: "x = (t, i)" by (cases x)
  have fresh: "t \<notin> fst ` set result" using Cons.prems x by auto
  have d: "distinct (map fst (result @ [(t, analyze_info tok st p i)]) @ map fst items)"
    using Cons.prems x by auto
  show ?case using Cons.IH [OF d] by (simp add: x update_fresh [OF fresh])
qed

lemma analyze_lookup:
  assumes "distinct (map fst news_dict)" and "(t, info) \<in> set news_dict"
  shows "map_of (analyze tok st p news_dict) t = Some (analyze_info tok st p info)"
proof -
  have "analyze tok st p news_dict = map (\<lambda>(t, i). (t, analyze_info tok st p i)) news_dict"
    using assms(1) analyze_loop_map [of "[]" news_dict tok st p] by (simp add: analyze_def)
  moreover have "map_of news_dict t = Some info" using assms by simp
  ultimately show ?thesis by (simp add: map_of_map)
qed

lemma no_titles:
  assumes "list_all (\<lambda>a. titulo a = []) (raw info)"
  shows "analyze_info tok st p info =
     \<lparr>sentiments = [], sentiment_global = Neutral, num_pos = 0, num_neg = 0, num_neu = 0\<rparr>"
proof -
  have "filter (\<lambda>a. titulo a \<noteq> []) (raw info) = []"
    using assms by (simp add: list_all_iff filter_empty_conv)
  then show ?thesis by (simp add: analyze_info_def)
qed

lemma py_max_tie_break:
  "py_max (counts_get [(Positivo, a), (Negativo, b), (Neutral, c)]) Positivo [Negativo, Neutral]
     = tie_break a b c"
  by (auto simp: counts_get_def tie_break_def)

lemma some_titles:
  fixes tok :: "string \<Rightarrow> string list" and st :: "string set" and p :: "string \<Rightarrow> label"
    and info :: news_info
  assumes "\<not> list_all (\<lambda>a. titulo a = []) (raw info)"
  defines "r \<equiv> analyze_info tok st p info"
  shows "sentiments r = map (\<lambda>a. p (clean_text tok st (titulo a)))
                           (filter (\<lambda>a. titulo a \<noteq> []) (raw info))"
    and "num_pos r = count_list (sentiments r) Positivo"
    and "num_neg r = count_list (sentiments r) Negativo"
    and "num_neu r = count_list (sentiments r) Neutral"
    and "sentiment_global r = tie_break (num_pos r) (num_neg r) (num_neu r)"
    and "label_count r (sentiment_global r) = max (num_pos r) (max (num_neg r) (num_neu r))"
proof -
  have cnt: "length (filter (\<lambda>s. s = l) ys) = count_list ys l" for l :: label and ys
    by (induction ys) auto
  have ne: "map titulo (filter (\<lambda>a. titulo a \<noteq> []) (raw info)) \<noteq> []"
    using assms(1) by (auto simp: list_all_iff filter_empty_conv)
  define ys where "ys = map p (map (clean_text tok st)
                     (map titulo (filter (\<lambda>a. titulo a \<noteq> []) (raw info))))"
  have eq: "r = \<lparr>sentiments = ys,
                 sentiment_global = tie_break (count_list ys Positivo) (count_list ys Negativo)
                                      (count_list ys Neutral),
                 num_pos = count_list ys Positivo, num_neg = count_list ys Negativo,
                 num_neu = count_list ys Neutral\<rparr>"
    unfolding r_def analyze_info_def Let_def py_max_tie_break cnt ys_def [symmetric]
    using ne by (simp only: if_False)
  show "sentiments r = map (\<lambda>a. p (clean_text tok st (titulo a)))
                           (filter (\<lambda>a. titulo a \<noteq> []) (raw info))"
    by (simp add: eq ys_def comp_def)
  show "num_pos r = count_list (sentiments r) Positivo" by (simp add: eq)
  show "num_neg r = count_list (sentiments r) Negativo" by (simp add: eq)
  show "num_neu r = count_list (sentiments r) Neutral" by (simp add: eq)
  show g: "sentiment_global r = tie_break (num_pos r) (num_neg r) (num_neu r)"
    by (simp add: eq)
  show "label_count r (sentiment_global r) = max (num_pos r) (max (num_neg r) (num_neu r))"
    unfolding g by (auto simp: label_count_def tie_break_def)
qed

text \<open>
  C7. For a ticker whose headline list is empty or has only empty titles, \<open>analyze\<close>
  gives the neutral aggregate, no per-headline label and the three counts zero; the
  function has no failing branch.
\<close>

theorem analyze_no_titles_neutral:
  assumes "distinct (map fst news_dict)"
    and "(t, info) \<in> set news_dict"
    and "list_all (\<lambda>a. titulo a = []) (raw info)"
  shows "map_of (analyze tok st p news_dict) t =
           Some \<lparr>sentiments = [], sentiment_global = Neutral,
                 num_pos = 0, num_neg = 0, num_neu = 0\<rparr>"
  using analyze_lookup [OF assms(1,2)] no_titles [OF assms(3)] by simp

theorem analyze_no_titles_neutral_witness:
  "map_of (analyze py_split {''con'', ''los'', ''las''} sample_predict sample_news) ''NVDA'' =
     Some \<lparr>sentiments = [], sentiment_global = Neutral,
           num_pos = 0, num_neg = 0, num_neu = 0\<rparr>"
proof -
  let ?info = "\<lparr>raw = [\<lparr>titulo = [], url = None\<rparr>], clean = None\<rparr>"
  have h1: "distinct (map fst sample_news)" by code_simp
  have h2: "(''NVDA'', ?info) \<in> set sample_news" by (simp add: sample_news_def)
  have h3: "list_all (\<lambda>a. titulo a = []) (raw ?info)" by simp
  show ?thesis by (rule analyze_no_titles_neutral [OF h1 h2 h3])
qed

text \<open>
  C5. For a ticker with at least one non-empty title, the per-headline labels are
  the classifier's labels of the normalized non-empty titles, in their order; the
  three counts are those of these labels, the aggregate label has the largest of the
  three counts,
  and it is the value of one fixed function of the counts: among labels with the same
  largest count, positive is chosen before negative and negative before neutral.
\<close>

theorem analyze_plurality:
  assumes "distinct (map fst news_dict)"
    and "(t, info) \<in> set news_dict"
    and "\<not> list_all (\<lambda>a. titulo a = []) (raw info)"
  shows "\<exists>r. map_of (analyze tok st p news_dict) t = Some r
           \<and> sentiments r = map (\<lambda>a. p (clean_text tok st (titulo a)))
                               (filter (\<lambda>a. titulo a \<noteq> []) (raw info))
           \<and> num_pos r = count_list (sentiments r) Positivo
           \<and> num_neg r = count_list (sentiments r) Negativo
           \<and> num_neu r = count_list (sentiments r) Neutral
           \<and> label_count r (sentiment_global r) = max (num_pos r) (max (num_neg r) (num_neu r))
           \<and> sentiment_global r = tie_break (num_pos r) (num_neg r) (num_neu r)"
proof -
  let ?r = "analyze_info tok st p info"
  have "map_of (analyze tok st p news_dict) t = Some ?r"
    using assms(1,2) by (rule analyze_lookup)
  moreover have "sentiments ?r = map (\<lambda>a. p (clean_text tok st (titulo a)))
                                   (filter (\<lambda>a. titulo a \<noteq> []) (raw info))"
    using assms(3) by (rule some_titles(1))
  moreover have "num_pos ?r = count_list (sentiments ?r) Positivo"
    using assms(3) by (rule some_titles(2))
  moreover have "num_neg ?r = count_list (sentiments ?r) Negativo"
    using assms(3) by (rule some_titles(3))
  moreover have "num_neu ?r = count_list (sentiments ?r) Neutral"
    using assms(3) by (rule some_titles(4))
  moreover have "label_count ?r (sentiment_global ?r)
                   = max (num_pos ?r) (max (num_neg ?r) (num_neu ?r))"
    using assms(3) by (rule some_titles(6))
  moreover have "sentiment_global ?r = tie_break (num_pos ?r) (num_neg ?r) (num_neu ?r)"
    using assms(3) by (rule some_titles(5))
  ultimately show ?thesis by blast
qed

theorem analyze_plurality_witness:
  "\<exists>r. map_of (analyze py_split {''con'', ''los'', ''las''} sample_predict sample_news) ''AAPL''
          = Some r
      \<and> sentiments r = [Positivo, Negativo]
      \<and> num_pos r = count_list (sentiments r) Positivo
      \<and> num_neg r = count_list (sentiments r) Negativo
      \<and> num_neu r = count_list (sentiments r) Neutral
      \<and> label_count r (sentiment_global r) = max (num_pos r) (max (num_neg r) (num_neu r))
      \<and> sentiment_global r = tie_break (num_pos r) (num_neg r) (num_neu r)"
proof -
  let ?info = "\<lparr>raw = [\<lparr>titulo = ''Apple sube con fuerza'', url = None\<rparr>,
                        \<lparr>titulo = [], url = None\<rparr>,
                        \<lparr>titulo = ''Apple baja'', url = None\<rparr>],
                 clean = None\<rparr>"
  let ?tok = "py_split" and ?st = "{''con'', ''los'', ''las''}"
  have h1: "distinct (map fst sample_news)" by code_simp
  have h2: "(''AAPL'', ?info) \<in> set sample_news" by (simp add: sample_news_def)
  have h3: "\<not> list_all (\<lambda>a. titulo a = []) (raw ?info)" by simp
  have l: "map (\<lambda>a. sample_predict (clean_text ?tok ?st (titulo a)))
             (filter (\<lambda>a. titulo a \<noteq> []) (raw ?info)) = [Positivo, Negativo]"
    by code_simp
  from analyze_plurality [OF h1 h2 h3, of ?tok ?st sample_predict]
  obtain r where r: "map_of (analyze ?tok ?st sample_predict sample_news) ''AAPL'' = Some r"
    and s: "sentiments r = map (\<lambda>a. sample_predict (clean_text ?tok ?st (titulo a)))
                             (filter (\<lambda>a. titulo a \<noteq> []) (raw ?info))"
    and rest: "num_pos r = count_list (sentiments r) Positivo"
      "num_neg r = count_list (sentiments r) Negativo"
      "num_neu r = count_list (sentiments r) Neutral"
      "label_count r (sentiment_global r) = max (num_pos r) (max (num_neg r) (num_neu r))"
      "sentiment_global r = tie_break (num_pos r) (num_neg r) (num_neu r)"
    by blast
  from s l have "sentiments r = [Positivo, Negativo]" by (rule trans)
  with r rest show ?thesis by blast
qed


section \<open>Normalization: properties\<close>

lemma kept_char_lower: "kept_char c \<Longrightarrow> lower_char c = c"
  by (auto simp: kept_char_def lower_char_def ascii_upper_def ascii_lower_def ascii_digit_def
      is_space_def)

lemma kept_space: "kept_char (CHR '' '')"
  by (simp add: kept_char_def is_space_def code_def)

lemma normal_strip: "normal_text (strip_symbols s)"
  by (induction s) (auto simp: normal_text_def strip_symbols_def kept_space)

lemma normal_fixed:
  assumes "normal_text s"
  shows "strip_symbols (lower s) = s"
  using assms
  by (induction s) (auto simp: normal_text_def strip_symbols_def lower_def kept_char_lower)

lemma normal_join:
  assumes "list_all normal_text ts"
  shows "normal_text (join_space ts)"
  using assms
  by (induction ts rule: join_space.induct) (auto simp: normal_text_def kept_space)

lemma tokenize_join:
  fixes tok :: "string \<Rightarrow> string list"
  assumes tok_nil: "tok [] = []"
    and tok_space: "\<And>u v. normal_text u \<Longrightarrow> normal_text v \<Longrightarrow> tok (u @ CHR '' '' # v) = tok u @ tok v"
    and ts: "list_all (\<lambda>t. normal_text t \<and> tok t = [t]) ts"
  shows "tok (join_space ts) = ts"
  using ts
proof (induction ts rule: join_space.induct)
  case 1
  then show ?case by (simp add: tok_nil)
next
  case (2 t)
  then show ?case by simp
next
  case (3 t u ts)
  have "normal_text (join_space (u # ts))"
    using "3.prems" by (intro normal_join) (simp add: list_all_iff)
  then have "tok (t @ CHR '' '' # join_space (u # ts)) = tok t @ tok (join_space (u # ts))"
    using "3.prems" by (intro tok_space) simp_all
  then show ?case using 3 by simp
qed

lemma takeWhile_stop: "\<not> P c \<Longrightarrow> takeWhile P (xs @ c # ys) = takeWhile P xs"
  by (induction xs) auto

lemma dropWhile_stop: "\<not> P c \<Longrightarrow> dropWhile P (xs @ c # ys) = dropWhile P xs @ c # ys"
  by (induction xs) auto

lemma runs_of_sep:
  assumes "\<not> P c"
  shows "runs_of P (u @ c # v) = runs_of P u @ runs_of P v"
  using assms
proof (induction P u rule: runs_of.induct)
  case (1 P)
  then show ?case by simp
next
  case (2 P a as)
  then show ?case by (simp add: takeWhile_stop dropWhile_stop)
qed

lemma runs_of_members:
  assumes "t \<in> set (runs_of P s)"
  shows "t \<noteq> [] \<and> list_all P t \<and> set t \<subseteq> set s"
  using assms
proof (induction P s rule: runs_of.induct)
  case (1 P)
  then show ?case by simp
next
  case (2 P a as)
  show ?case
  proof (cases "P a")
    case True
    from "2.prems" True have "t = a # takeWhile P as \<or> t \<in> set (runs_of P (dropWhile P as))"
      by simp
    then show ?thesis
    proof
      assume "t = a # takeWhile P as"
      then show ?thesis using True by (auto simp: list_all_iff dest: set_takeWhileD)
    next
      assume "t \<in> set (runs_of P (dropWhile P as))"
      from "2.IH"(1) [OF True this] show ?thesis
        by (auto dest: set_dropWhileD)
    qed
  next
    case False
    with "2.prems" have "t \<in> set (runs_of P as)" by simp
    from "2.IH"(2) [OF False this] show ?thesis by auto
  qed
qed

lemma runs_of_single:
  assumes "t \<noteq> []" and "list_all P t"
  shows "runs_of P t = [t]"
proof -
  obtain a as where t: "t = a # as" using assms(1) by (cases t) auto
  have a: "P a" using assms(2) t by simp
  have tw: "takeWhile P as = as" and dw: "dropWhile P as = []"
    using assms(2) t by (simp_all add: list_all_iff)
  have "runs_of P (a # as) = (a # takeWhile P as) # runs_of P (dropWhile P as)"
    using a by simp
  also have "\<dots> = [a # as]" by (simp only: dw tw runs_of.simps)
  finally show ?thesis by (simp only: t)
qed

lemma py_split_laws:
  "py_split [] = []"
  "py_split (u @ CHR '' '' # v) = py_split u @ py_split v"
  "t \<in> set (py_split s) \<Longrightarrow> py_split t = [t]"
  "t \<in> set (py_split s) \<Longrightarrow> set t \<subseteq> set s"
proof -
  show "py_split [] = []" by (simp add: py_split_def)
  have sp: "\<not> \<not> is_space (CHR '' '')" by (simp add: is_space_def code_def)
  show "py_split (u @ CHR '' '' # v) = py_split u @ py_split v"
    unfolding py_split_def using sp by (rule runs_of_sep)
  show "py_split t = [t]" if "t \<in> set (py_split s)"
    using runs_of_members [OF that [unfolded py_split_def]]
    unfolding py_split_def by (intro runs_of_single) simp_all
  show "set t \<subseteq> set s" if "t \<in> set (py_split s)"
    using runs_of_members [OF that [unfolded py_split_def]] by simp
qed

text \<open>
  C6. \<open>clean_text\<close> lowers the case, replaces every character other than a lower-case
  letter, one of the seven accented letters, a digit or white space with a blank,
  tokenizes, drops the stop words and the tokens of at most two characters, and joins
  with single blanks. The tokenizer is NLTK's; the property holds for every tokenizer
  that, on texts over the kept characters, gives nothing for the empty text, works on
  the two sides of a blank separately, gives tokens that it leaves whole, and makes
  tokens of characters of the text. Then normalizing twice is normalizing once.
\<close>

theorem clean_text_idempotent:
  fixes tok :: "string \<Rightarrow> string list"
  assumes tok_nil: "tok [] = []"
    and tok_space:
      "\<And>u v. normal_text u \<Longrightarrow> normal_text v \<Longrightarrow> tok (u @ CHR '' '' # v) = tok u @ tok v"
    and tok_stable: "\<And>s t. normal_text s \<Longrightarrow> t \<in> set (tok s) \<Longrightarrow> tok t = [t]"
    and tok_chars: "\<And>s t. normal_text s \<Longrightarrow> t \<in> set (tok s) \<Longrightarrow> set t \<subseteq> set s"
  shows "clean_text tok stop (clean_text tok stop x) = clean_text tok stop x"
proof -
  define y where "y = strip_symbols (lower x)"
  define keep where "keep = (\<lambda>t::string. t \<notin> stop \<and> 2 < length t)"
  define ts where "ts = filter keep (tok y)"
  have y: "normal_text y" unfolding y_def by (rule normal_strip)
  have c: "clean_text tok stop x = join_space ts"
    by (simp add: clean_text_def ts_def keep_def y_def)
  have each: "list_all (\<lambda>t. normal_text t \<and> tok t = [t]) ts"
  proof -
    have "normal_text t \<and> tok t = [t]" if "t \<in> set ts" for t
    proof -
      from that have m: "t \<in> set (tok y)" by (simp add: ts_def)
      have "set t \<subseteq> set y" using tok_chars [OF y m] .
      then have "normal_text t" using y by (auto simp: normal_text_def list_all_iff)
      then show ?thesis using tok_stable [OF y m] by simp
    qed
    then show ?thesis by (simp add: list_all_iff)
  qed
  then have "list_all normal_text ts" by (simp add: list_all_iff)
  then have n: "normal_text (join_space ts)" by (rule normal_join)
  have t: "tok (join_space ts) = ts"
    using tok_nil tok_space each by (rule tokenize_join)
  have "clean_text tok stop (join_space ts) = join_space (filter keep (tok (join_space ts)))"
    by (simp add: clean_text_def keep_def normal_fixed [OF n])
  also have "\<dots> = join_space ts" by (simp only: t) (simp add: ts_def)
  finally show ?thesis by (simp add: c)
qed

theorem clean_text_idempotent_witness:
  "clean_text py_split {''con'', ''los'', ''las''}
     (clean_text py_split {''con'', ''los'', ''las''}
        (''Apple SUBE con fuerza: +3% en 2 d'' @ [CHR 0xED] @ ''as!''))
   = clean_text py_split {''con'', ''los'', ''las''}
        (''Apple SUBE con fuerza: +3% en 2 d'' @ [CHR 0xED] @ ''as!'')"
proof (rule clean_text_idempotent)
  show "py_split [] = []" by (rule py_split_laws(1))
  show "py_split (u @ CHR '' '' # v) = py_split u @ py_split v" for u v
    by (rule py_split_laws(2))
  show "py_split t = [t]" if "t \<in> set (py_split s)" for s t
    using that by (rule py_split_laws(3))
  show "set t \<subseteq> set s" if "t \<in> set (py_split s)" for s t
    using that by (rule py_split_laws(4))
qed


section \<open>The coordinator: properties\<close>

text \<open>
  C8. When the extraction gives no ticker, \<open>run\<close> goes through every stage with the
  empty list and returns: the raw market data, the rows of the summary, the news and
  the sentiments of the record are empty, the answer is what the report stage gives
  for them, and the record is appended to the history. The start date of the price
  window is computed before any ticker is looked at, so the coordinator's \<open>days\<close> must
  give a date (as every window of the user interface does); otherwise the call raises
  OverflowError, see \<open>run_overflow\<close>.
\<close>

theorem run_without_tickers:
  assumes "extract_tickers_from_query q = []"
    and "window_ok (today e) (days c)"
  shows "run e c q None =
     (let r = \<lparr>rec_user_query = q, rec_tickers = [], rec_market_raw = [],
                rec_market_summary = \<lparr>tcolumns = summary_columns, trows = []\<rparr>,
                rec_news = [], rec_sentiments = [],
                rec_llm_answer = build_and_call e (llm_model_name c) q
                  \<lparr>tcolumns = summary_columns, trows = []\<rparr> [] []\<rparr>
      in Inr (r, c\<lparr>history := history c @ [r]\<rparr>))"
  using assms
  by (simp add: run_def and_then_def Let_def get_market_data_window summarize_def get_news_def
      get_news_for_tickers_def analyze_def summary_columns_def)

theorem run_without_tickers_witness:
  "run sample_env sample_coordinator ''hola, que tal'' None =
     (let r = \<lparr>rec_user_query = ''hola, que tal'', rec_tickers = [], rec_market_raw = [],
                rec_market_summary = \<lparr>tcolumns = summary_columns, trows = []\<rparr>,
                rec_news = [], rec_sentiments = [],
                rec_llm_answer = build_and_call sample_env (llm_model_name sample_coordinator)
                  ''hola, que tal'' \<lparr>tcolumns = summary_columns, trows = []\<rparr> [] []\<rparr>
      in Inr (r, sample_coordinator\<lparr>history := history sample_coordinator @ [r]\<rparr>))"
proof -
  have h: "extract_tickers_from_query ''hola, que tal'' = []" by code_simp
  have w: "window_ok (today sample_env) (days sample_coordinator)" by code_simp
  show ?thesis by (rule run_without_tickers [OF h w])
qed

text \<open>
  C9. A call of \<open>run\<close> that returns leaves the coordinator with the record it returns
  appended at the end of the history, the earlier records unchanged and in place, and
  its other fields as they were. \<open>run\<close> is the only operation on the history.
\<close>

theorem run_appends_record:
  assumes "run e c q ts = Inr (r, c')"
  shows "history c' = history c @ [r]
         \<and> c' = c\<lparr>history := history c @ [r]\<rparr>"
  using assms by (auto simp: run_def and_then_def Let_def split: sum.splits)

theorem run_appends_record_witness:
  "\<exists>r c'. run sample_env sample_coordinator ''Analiza NVDA'' None = Inr (r, c')
      \<and> history c' = history sample_coordinator @ [r]
      \<and> c' = sample_coordinator\<lparr>history := history sample_coordinator @ [r]\<rparr>"
proof -
  let ?res = "run sample_env sample_coordinator ''Analiza NVDA'' None"
  have "\<not> isl ?res" by code_simp
  then obtain r c' where h: "?res = Inr (r, c')" by (cases ?res) auto
  from run_appends_record [OF h] h show ?thesis by blast
qed

text \<open>
  C10. An explicitly empty ticker list is treated as no list. The call with the empty
  list gives what the call without a list gives and what the call with the list
  extracted from the query gives; the record of a call that returns holds the tickers
  extracted from the query, and its market data and news are those fetched for them.
\<close>

theorem run_empty_list_as_none:
  "run e c q (Some []) = run e c q None
   \<and> run e c q (Some []) = run e c q (Some (extract_tickers_from_query q))
   \<and> (\<forall>r c'. run e c q (Some []) = Inr (r, c') \<longrightarrow>
         rec_tickers r = extract_tickers_from_query q
         \<and> get_market_data (today e) (yf_download e) (extract_tickers_from_query q)
             (days c) (interval c) = Inr (rec_market_raw r)
         \<and> rec_news r = get_news (requests_get e) (max_articles c)
             (extract_tickers_from_query q))"
proof (intro conjI allI impI)
  show "run e c q (Some []) = run e c q None"
    by (simp add: run_def)
  show "run e c q (Some []) = run e c q (Some (extract_tickers_from_query q))"
    by (simp add: run_def)
next
  fix r c'
  assume a: "run e c q (Some []) = Inr (r, c')"
  let ?ts = "extract_tickers_from_query q"
  from a obtain mr ms where mr: "get_market_data (today e) (yf_download e) ?ts (days c)
                                   (interval c) = Inr mr"
    and ms: "summarize mr = Inr ms"
    by (auto simp: run_def and_then_def Let_def split: sum.splits)
  from a mr ms have r: "rec_tickers r = ?ts" "rec_market_raw r = mr"
    "rec_news r = get_news (requests_get e) (max_articles c) ?ts"
    by (auto simp: run_def and_then_def Let_def)
  show "rec_tickers r = ?ts" by (rule r(1))
  show "get_market_data (today e) (yf_download e) ?ts (days c) (interval c)
          = Inr (rec_market_raw r)"
    using mr r(2) by simp
  show "rec_news r = get_news (requests_get e) (max_articles c) ?ts" by (rule r(3))
qed

theorem run_empty_list_as_none_witness:
  "\<exists>r c'. run sample_env sample_coordinator ''Analiza AAPL'' (Some []) = Inr (r, c')
      \<and> run sample_env sample_coordinator ''Analiza AAPL'' None = Inr (r, c')
      \<and> rec_tickers r = [''AAPL'']"
proof -
  let ?res = "run sample_env sample_coordinator ''Analiza AAPL'' (Some [])"
  have "\<not> isl ?res" by code_simp
  then obtain r c' where h: "?res = Inr (r, c')" by (cases ?res) auto
  have x: "extract_tickers_from_query ''Analiza AAPL'' = [''AAPL'']" by code_simp
  from run_empty_list_as_none [of sample_env sample_coordinator "''Analiza AAPL''"]
  have e: "?res = run sample_env sample_coordinator ''Analiza AAPL'' None"
    and t: "\<forall>r c'. ?res = Inr (r, c') \<longrightarrow>
              rec_tickers r = extract_tickers_from_query ''Analiza AAPL''"
    by blast+
  from t h have "rec_tickers r = extract_tickers_from_query ''Analiza AAPL''" by blast
  with x have "rec_tickers r = [''AAPL'']" by (rule trans [rotated])
  with h e show ?thesis by (intro exI conjI) simp_all
qed

end
